theory Spec2Isabelle
  imports Complex_Main "HOL-Library.Sublist" "HOL-Library.Word"
begin

section \<open>Python strings\<close>

text \<open>
  A Python \<open>str\<close> is a sequence of Unicode code points; a code point is a natural number.
  String literals of the source are written with \<open>lit\<close>, which maps the characters of an
  Isabelle string to their code points.
\<close>

type_synonym str = "nat list"

definition lit :: "string \<Rightarrow> str" where
  "lit s = map of_char s"

text \<open>
  \<open>str.lower\<close> and the whitespace class used by \<open>str.strip\<close> and by the regular
  expression \<open>\s\<close> belong to the Python runtime and its Unicode character database, not to
  this repository. Their behaviour on ASCII is fixed below; their behaviour beyond ASCII is
  a parameter of the model (\<open>ucd\<close>), so every theorem holds for whatever the runtime's
  database says there.
  \<^item> \<open>lower_full s\<close> is the result of \<open>s.lower()\<close> for a string \<open>s\<close> that has a non-ASCII
    code point;
  \<^item> \<open>is_whitespace c\<close> says whether the non-ASCII code point \<open>c\<close> is whitespace.
\<close>

record ucd =
  lower_full :: "str \<Rightarrow> str"
  is_whitespace :: "nat \<Rightarrow> bool"

definition ascii_lower :: "nat \<Rightarrow> nat" where
  "ascii_lower c = (if 65 \<le> c \<and> c \<le> 90 then c + 32 else c)"

definition is_ascii :: "str \<Rightarrow> bool" where
  "is_ascii s = list_all (\<lambda>c. c < 128) s"

definition str_lower :: "ucd \<Rightarrow> str \<Rightarrow> str" where
  "str_lower U s = (if is_ascii s then map ascii_lower s else lower_full U s)"

definition isspace :: "ucd \<Rightarrow> nat \<Rightarrow> bool" where
  "isspace U c =
     (if c < 128 then (9 \<le> c \<and> c \<le> 13) \<or> (28 \<le> c \<and> c \<le> 32) else is_whitespace U c)"

text \<open>\<open>str_contains s t\<close> is Python's \<open>t in s\<close> on strings: \<open>t\<close> occurs in \<open>s\<close> as a
  contiguous run of code points.\<close>

fun str_contains :: "str \<Rightarrow> str \<Rightarrow> bool" where
  "str_contains [] t = (t = [])"
| "str_contains (c # s) t = (prefix t (c # s) \<or> str_contains s t)"

text \<open>\<open>s.strip()\<close>: leading and trailing whitespace removed.\<close>

definition strip :: "ucd \<Rightarrow> str \<Rightarrow> str" where
  "strip U s = rev (dropWhile (isspace U) (rev (dropWhile (isspace U) s)))"

text \<open>\<open>sep.join(xs)\<close>.\<close>

fun join :: "str \<Rightarrow> str list \<Rightarrow> str" where
  "join sep [] = []"
| "join sep [x] = x"
| "join sep (x # y # ys) = x @ sep @ join sep (y # ys)"

subsection \<open>Splitting into sentences\<close>

text \<open>
  \<open>re.split(r"(?<=[.!?])\s+", text)\<close>. A match starts at a whitespace character whose
  predecessor is one of \<open>. ! ?\<close> and extends over the whole run of whitespace; the pieces
  between the matches are returned, so \<open>n\<close> matches give \<open>n + 1\<close> pieces and a text with no
  match is returned whole (also the empty text). The scanner is either inside a piece,
  remembering whether the previous character was a terminator, or inside a match.
\<close>

definition is_terminator :: "nat \<Rightarrow> bool" where
  "is_terminator c = (c = 46 \<or> c = 33 \<or> c = 63)"

datatype scan = Piece bool | Match

fun re_split_scan :: "ucd \<Rightarrow> scan \<Rightarrow> str \<Rightarrow> str \<Rightarrow> str list" where
  "re_split_scan U st cur [] = [rev cur]"
| "re_split_scan U (Piece after_term) cur (c # cs) =
     (if after_term \<and> isspace U c then rev cur # re_split_scan U Match [] cs
      else re_split_scan U (Piece (is_terminator c)) (c # cur) cs)"
| "re_split_scan U Match cur (c # cs) =
     (if isspace U c then re_split_scan U Match cur cs
      else re_split_scan U (Piece (is_terminator c)) (c # cur) cs)"

definition re_split :: "ucd \<Rightarrow> str \<Rightarrow> str list" where
  "re_split U text = re_split_scan U (Piece False) [] text"

section \<open>The risk lexicon\<close>

text \<open>\<open>RISK_WEIGHTS\<close>, a dict literal: its items in insertion order.\<close>

definition RISK_WEIGHTS :: "(str \<times> int) list" where
  "RISK_WEIGHTS =
    [(lit ''fraud'', 20),
     (lit ''bribery'', 15),
     (lit ''sanctions'', 25),
     (lit ''bankruptcy'', 10),
     (lit ''money laundering'', 30),
     (lit ''litigation'', 10),
     (lit ''regulatory fines'', 20),
     (lit ''tax evasion'', 15),
     (lit ''data breach'', 20),
     (lit ''antitrust'', 15)]"

section \<open>Enhanced risk analysis\<close>

record details =
  flagged_terms :: "str list"
  recommendations :: str

record analysis =
  summary :: str
  risk_score :: rat
  details :: details

text \<open>
  The scoring loop of \<open>enhanced_risk_analysis\<close>: for each item of the lexicon, in order, a
  term contained in the lowercased text is appended to \<open>flagged\<close> and its weight added to
  \<open>score\<close>.
\<close>

fun score_loop :: "(str \<times> int) list \<Rightarrow> str \<Rightarrow> str list \<times> int \<Rightarrow> str list \<times> int" where
  "score_loop [] lower (flagged, score) = (flagged, score)"
| "score_loop ((term, weight) # items) lower (flagged, score) =
     (if str_contains lower term
      then score_loop items lower (flagged @ [term], score + weight)
      else score_loop items lower (flagged, score))"

definition REVIEW :: str where
  "REVIEW = lit ''Review the highlighted sentences for potential compliance issues.''"

text \<open>The hyphen of \<open>high-severity\<close> is U+2011 in the source.\<close>

definition CONTINUE :: str where
  "CONTINUE = lit ''No high'' @ [8209] @
     lit ''severity risk terms detected; continue standard due diligence.''"

text \<open>
  The list comprehension that builds \<open>sentences\<close>: the pieces of the split, stripped, the
  empty ones dropped.
\<close>

definition sentences_of :: "ucd \<Rightarrow> str \<Rightarrow> str list" where
  "sentences_of U text = filter (\<lambda>s. s \<noteq> []) (map (strip U) (re_split U text))"

text \<open>
  An exception is a value; a computation that may raise returns \<open>exn + 'a\<close>, with \<open>Inl\<close> the
  exception raised. \<open>Exception\<close> stands for any exception of class \<open>Exception\<close> other than
  the two named.
\<close>

datatype exn = HTTPException nat string | OverflowError | Exception string

text \<open>
  \<open>score / 100.0\<close>: the integer is first converted to a float, which raises
  \<open>OverflowError\<close> when it is too large for one. The largest float is \<open>2^1024 - 2^971\<close> and
  the conversion rounds to nearest, ties to even, so \<open>FLOAT_LIMIT\<close> is the least magnitude
  that does not convert. The quotient is held as the exact rational; the source holds its
  correctly rounded double.
\<close>

definition FLOAT_LIMIT :: int where
  "FLOAT_LIMIT = 2 ^ 1024 - 2 ^ 970"

definition div_100 :: "int \<Rightarrow> exn + rat" where
  "div_100 score =
     (if abs score < FLOAT_LIMIT then Inr (of_int score / 100) else Inl OverflowError)"

text \<open>
  The body of \<open>enhanced_risk_analysis\<close> after the risk score is computed: the summary is
  built from the sentences of the text and the flagged terms, and the result assembled.
\<close>

definition analysis_of :: "ucd \<Rightarrow> str \<Rightarrow> str list \<Rightarrow> rat \<Rightarrow> analysis" where
  "analysis_of U text flagged risk =
     (let sentences = sentences_of U text;
          selected = filter (\<lambda>s. list_ex (\<lambda>term. str_contains (str_lower U s) term) flagged)
                       sentences;
          summary_sentences =
            (if selected = [] \<and> sentences \<noteq> [] then selected @ [hd sentences] else selected);
          summ = join (lit ''. '') summary_sentences
                   @ (if summary_sentences \<noteq> [] then lit ''.'' else [])
      in \<lparr>summary = summ,
          risk_score = risk,
          details = \<lparr>flagged_terms = flagged,
                     recommendations = (if flagged \<noteq> [] then REVIEW else CONTINUE)\<rparr>\<rparr>)"

text \<open>
  The body of \<open>enhanced_risk_analysis\<close> with the items of the lexicon as an argument: for a
  lexicon other than \<open>RISK_WEIGHTS\<close> the division can raise, and then nothing is returned.
\<close>

definition enhanced_risk_analysis_on ::
  "ucd \<Rightarrow> (str \<times> int) list \<Rightarrow> str \<Rightarrow> exn + analysis" where
  "enhanced_risk_analysis_on U items text =
     (let lower = str_lower U text;
          (flagged, score) = score_loop items lower ([], 0)
      in case div_100 score of
           Inl e \<Rightarrow> Inl e
         | Inr q \<Rightarrow> Inr (analysis_of U text flagged (min q 1)))"

text \<open>
  \<open>enhanced_risk_analysis\<close> itself, whose lexicon is \<open>RISK_WEIGHTS\<close>. Its score is at most
  180, the sum of all the weights, so the division does not raise and the function returns
  its result; that this is the body above at \<open>RISK_WEIGHTS\<close> is proved below
  (\<open>enhanced_risk_analysis_on_RISK_WEIGHTS\<close>).
\<close>

definition enhanced_risk_analysis :: "ucd \<Rightarrow> str \<Rightarrow> analysis" where
  "enhanced_risk_analysis U text =
     (let lower = str_lower U text;
          (flagged, score) = score_loop RISK_WEIGHTS lower ([], 0);
          risk = min (of_int score / 100) 1
      in analysis_of U text flagged risk)"

text \<open>A character database that knows nothing beyond ASCII, for evaluating the analysis on
  ASCII texts, where no database is consulted.\<close>

definition ascii_ucd :: ucd where
  "ascii_ucd = \<lparr>lower_full = (\<lambda>s. s), is_whitespace = (\<lambda>c. False)\<rparr>"

section \<open>Bytes and text extraction\<close>

type_synonym bytes = "8 word list"

text \<open>
  \<open>data.decode("utf-8", errors="ignore")\<close> as the runtime decodes: a well-formed sequence
  gives its code point; an invalid start byte is skipped; a sequence broken by a byte that
  is not the continuation it needs is skipped up to that byte, where decoding resumes;
  a sequence cut off by the end of the data is skipped. Overlong forms, surrogates and
  code points above U+10FFFF are not well-formed.
\<close>

definition is_continuation :: "8 word \<Rightarrow> bool" where
  "is_continuation b = (0x80 \<le> b \<and> b < 0xC0)"

definition bad_second3 :: "8 word \<Rightarrow> 8 word \<Rightarrow> bool" where
  "bad_second3 b b2 =
     (\<not> is_continuation b2 \<or> (if b2 < 0xA0 then b = 0xE0 else b = 0xED))"

definition bad_second4 :: "8 word \<Rightarrow> 8 word \<Rightarrow> bool" where
  "bad_second4 b b2 =
     (\<not> is_continuation b2 \<or> (if b2 < 0x90 then b = 0xF0 else b = 0xF4))"

definition code2 :: "8 word \<Rightarrow> 8 word \<Rightarrow> nat" where
  "code2 b b2 = (unat b mod 32) * 64 + unat b2 mod 64"

definition code3 :: "8 word \<Rightarrow> 8 word \<Rightarrow> 8 word \<Rightarrow> nat" where
  "code3 b b2 b3 = (unat b mod 16) * 4096 + (unat b2 mod 64) * 64 + unat b3 mod 64"

definition code4 :: "8 word \<Rightarrow> 8 word \<Rightarrow> 8 word \<Rightarrow> 8 word \<Rightarrow> nat" where
  "code4 b b2 b3 b4 =
     (unat b mod 8) * 262144 + (unat b2 mod 64) * 4096 + (unat b3 mod 64) * 64 + unat b4 mod 64"

text \<open>
  One step of the decoder at the lead byte \<open>b\<close> followed by \<open>bs\<close>: the code point decoded,
  or \<open>None\<close> for an error that is ignored, and how many bytes of \<open>bs\<close> the step consumes
  with \<open>b\<close>.
\<close>

definition utf8_step :: "8 word \<Rightarrow> bytes \<Rightarrow> nat option \<times> nat" where
  "utf8_step b bs =
     (if b < 0x80 then (Some (unat b), 0)
      else if b < 0xC2 then (None, 0)
      else if b < 0xE0 then
        (case bs of
           [] \<Rightarrow> (None, 0)
         | b2 # r2 \<Rightarrow> if is_continuation b2 then (Some (code2 b b2), 1) else (None, 0))
      else if b < 0xF0 then
        (case bs of
           [] \<Rightarrow> (None, 0)
         | b2 # r2 \<Rightarrow>
             if bad_second3 b b2 then (None, 0)
             else (case r2 of
                     [] \<Rightarrow> (None, 1)
                   | b3 # r3 \<Rightarrow>
                       if is_continuation b3 then (Some (code3 b b2 b3), 2) else (None, 1)))
      else if b < 0xF5 then
        (case bs of
           [] \<Rightarrow> (None, 0)
         | b2 # r2 \<Rightarrow>
             if bad_second4 b b2 then (None, 0)
             else (case r2 of
                     [] \<Rightarrow> (None, 1)
                   | b3 # r3 \<Rightarrow>
                       if \<not> is_continuation b3 then (None, 1)
                       else (case r3 of
                               [] \<Rightarrow> (None, 2)
                             | b4 # r4 \<Rightarrow>
                                 if is_continuation b4 then (Some (code4 b b2 b3 b4), 3)
                                 else (None, 2))))
      else (None, 0))"

fun utf8_decode_ignore :: "bytes \<Rightarrow> str" where
  "utf8_decode_ignore [] = []"
| "utf8_decode_ignore (b # bs) =
     (case utf8_step b bs of
        (r, n) \<Rightarrow> (case r of Some c \<Rightarrow> [c] | None \<Rightarrow> []) @ utf8_decode_ignore (drop n bs))"

subsection \<open>The optional PDF library\<close>

text \<open>
  PyPDF2 is not part of this repository, so it is a parameter. The module is either absent
  (\<open>None\<close>, the import failed) or gives \<open>PdfReader\<close>: on the bytes of a document, building
  the reader raises, or yields the iteration over \<open>reader.pages\<close>. Each step of the
  iteration raises or gives a page, and a page is the outcome of its \<open>extract_text()\<close>:
  an exception, \<open>None\<close>, or a string.
\<close>

type_synonym page = "exn + str option"

type_synonym pdf_reader = "bytes \<Rightarrow> exn + (exn + page) list"

text \<open>The loop over \<open>reader.pages\<close>; the inner \<open>try\<close> turns a page that raises into \<open>""\<close>,
  and \<open>or ""\<close> does the same for \<open>None\<close>.\<close>

fun pages_loop :: "(exn + page) list \<Rightarrow> str list \<Rightarrow> exn + str list" where
  "pages_loop [] text = Inr text"
| "pages_loop (Inl e # rest) text = Inl e"
| "pages_loop (Inr page # rest) text =
     (let page_text = (case page of Inl e \<Rightarrow> [] | Inr None \<Rightarrow> [] | Inr (Some t) \<Rightarrow> t)
      in pages_loop rest (text @ [page_text]))"

definition extract_text_from_pdf :: "pdf_reader option \<Rightarrow> bytes \<Rightarrow> exn + str" where
  "extract_text_from_pdf PyPDF2 data =
     (case PyPDF2 of
        None \<Rightarrow> Inr []
      | Some PdfReader \<Rightarrow>
          (case (case PdfReader data of
                   Inl e \<Rightarrow> Inl e
                 | Inr pages \<Rightarrow>
                     (case pages_loop pages [] of
                        Inl e \<Rightarrow> Inl e
                      | Inr text \<Rightarrow> Inr (join [10] text)))
           of Inl e \<Rightarrow> Inr []
            | Inr s \<Rightarrow> Inr s))"

subsection \<open>Extraction in the analyze endpoint\<close>

definition PDF_MAGIC :: bytes where
  "PDF_MAGIC = [0x25, 0x50, 0x44, 0x46]"

definition bytes_decode :: "bytes \<Rightarrow> exn + str" where
  "bytes_decode data = Inr (utf8_decode_ignore data)"

text \<open>The format dispatch of \<open>analyze\<close>: the text the primary extraction path yields.\<close>

definition extract_text :: "pdf_reader option \<Rightarrow> bytes \<Rightarrow> exn + str" where
  "extract_text PyPDF2 data =
     (if take 4 data = PDF_MAGIC then extract_text_from_pdf PyPDF2 data
      else (case bytes_decode data of Inl e \<Rightarrow> Inr [] | Inr text \<Rightarrow> Inr text))"

text \<open>The dispatch followed by the fallback: the text handed to the analysis.\<close>

definition analyzed_text :: "pdf_reader option \<Rightarrow> bytes \<Rightarrow> exn + str" where
  "analyzed_text PyPDF2 data =
     (case extract_text PyPDF2 data of
        Inl e \<Rightarrow> Inl e
      | Inr text \<Rightarrow>
          (if text = [] then bytes_decode (take 500 data) else Inr text))"

section \<open>Notions of the specification\<close>

text \<open>
  A term occurs case-insensitively in a text when it occurs anywhere in the lowercased text,
  as a contiguous substring.
\<close>

definition occurs_in :: "ucd \<Rightarrow> str \<Rightarrow> str \<Rightarrow> bool" where
  "occurs_in U term text = sublist term (str_lower U text)"

text \<open>The running total of the scoring loop when it ends.\<close>

definition total_weight :: "ucd \<Rightarrow> (str \<times> int) list \<Rightarrow> str \<Rightarrow> int" where
  "total_weight U items text = snd (score_loop items (str_lower U text) ([], 0))"

text \<open>The lexicon terms other than the two given ones.\<close>

definition other_terms :: "str \<Rightarrow> str \<Rightarrow> str list" where
  "other_terms a b = filter (\<lambda>t. t \<noteq> a \<and> t \<noteq> b) (map fst RISK_WEIGHTS)"

section \<open>Properties of the scorer\<close>

lemma str_contains_sublist: "str_contains s t = sublist t s"
  by (induction s) (simp_all add: sublist_Cons_right)

lemma score_loop_eq:
  "score_loop items lower (flagged, score) =
     (flagged @ map fst (filter (\<lambda>(t, w). str_contains lower t) items),
      score + sum_list (map snd (filter (\<lambda>(t, w). str_contains lower t) items)))"
  by (induction items arbitrary: flagged score) auto

lemma matched_sum:
  "sum_list (map snd (filter (\<lambda>(t, w). str_contains (str_lower U text) t) items)) =
     (\<Sum>(term, weight) \<leftarrow> items. if occurs_in U term text then weight else 0)"
  by (induction items) (auto simp: occurs_in_def str_contains_sublist)

lemma total_weight_eq:
  "total_weight U items text =
     (\<Sum>(term, weight) \<leftarrow> items. if occurs_in U term text then weight else 0)"
  by (simp add: total_weight_def score_loop_eq matched_sum)

lemma matched_terms:
  "map fst (filter (\<lambda>(t, w). str_contains (str_lower U text) t) items) =
     filter (\<lambda>term. occurs_in U term text) (map fst items)"
  by (induction items) (auto simp: occurs_in_def str_contains_sublist)

lemma flagged_eq:
  "flagged_terms (details (enhanced_risk_analysis U text)) =
     filter (\<lambda>term. occurs_in U term text) (map fst RISK_WEIGHTS)"
  by (simp add: enhanced_risk_analysis_def analysis_of_def score_loop_eq Let_def matched_terms)

lemma risk_score_eq:
  "risk_score (enhanced_risk_analysis U text) =
     min (of_int (total_weight U RISK_WEIGHTS text) / 100) 1"
  by (simp add: enhanced_risk_analysis_def analysis_of_def total_weight_def score_loop_eq Let_def)

lemma recommendations_eq:
  "recommendations (details (enhanced_risk_analysis U text)) =
     (if flagged_terms (details (enhanced_risk_analysis U text)) \<noteq> []
      then REVIEW else CONTINUE)"
  by (simp add: enhanced_risk_analysis_def analysis_of_def score_loop_eq Let_def)

lemma total_weight_nonneg:
  assumes "\<forall>(term, weight) \<in> set items. 0 < weight"
  shows "0 \<le> total_weight U items text"
proof -
  have "0 \<le> (\<Sum>(term, weight) \<leftarrow> items. if occurs_in U term text then weight else 0)"
    using assms by (intro sum_list_nonneg) auto
  then show ?thesis by (simp add: total_weight_eq)
qed

lemma total_weight_pos_iff:
  assumes "\<forall>(term, weight) \<in> set items. 0 < weight"
  shows "0 < total_weight U items text \<longleftrightarrow>
           filter (\<lambda>term. occurs_in U term text) (map fst items) \<noteq> []"
  using assms
proof (induction items)
  case Nil
  then show ?case by (simp add: total_weight_eq)
next
  case (Cons a items)
  obtain t w where a: "a = (t, w)" by (cases a)
  from Cons.prems a have w: "0 < w" and rest: "\<forall>(term, weight) \<in> set items. 0 < weight"
    by auto
  have nn: "0 \<le> total_weight U items text" using rest by (rule total_weight_nonneg)
  have step: "total_weight U (a # items) text =
                (if occurs_in U t text then w else 0) + total_weight U items text"
    by (simp add: total_weight_eq a)
  show ?case
  proof (cases "occurs_in U t text")
    case True
    with w nn step show ?thesis by (simp add: a)
  next
    case False
    with step Cons.IH [OF rest] show ?thesis by (simp add: a)
  qed
qed

lemma RISK_WEIGHTS_positive: "\<forall>(term, weight) \<in> set RISK_WEIGHTS. 0 < weight"
  by (simp add: RISK_WEIGHTS_def)

lemma total_weight_le_sum:
  assumes "\<forall>(term, weight) \<in> set items. 0 < weight"
  shows "total_weight U items text \<le> sum_list (map snd items)"
proof -
  have "(\<Sum>(term, weight) \<leftarrow> items. if occurs_in U term text then weight else 0)
          \<le> sum_list (map snd items)"
    using assms by (induction items) auto
  then show ?thesis by (simp add: total_weight_eq)
qed

lemma RISK_WEIGHTS_total: "sum_list (map snd RISK_WEIGHTS) = 180"
  by (simp add: RISK_WEIGHTS_def)

lemma FLOAT_LIMIT_large: "180 < FLOAT_LIMIT"
  by (simp add: FLOAT_LIMIT_def)

lemma enhanced_risk_analysis_on_RISK_WEIGHTS:
  "enhanced_risk_analysis_on U RISK_WEIGHTS text = Inr (enhanced_risk_analysis U text)"
proof -
  obtain flagged score
    where sl: "score_loop RISK_WEIGHTS (str_lower U text) ([], 0) = (flagged, score)"
    by (cases "score_loop RISK_WEIGHTS (str_lower U text) ([], 0)")
  then have sc: "score = total_weight U RISK_WEIGHTS text"
    by (simp add: total_weight_def)
  have "0 \<le> score"
    unfolding sc using RISK_WEIGHTS_positive by (rule total_weight_nonneg)
  moreover have "score \<le> 180"
    unfolding sc using total_weight_le_sum [OF RISK_WEIGHTS_positive] RISK_WEIGHTS_total
    by simp
  ultimately have "div_100 score = Inr (of_int score / 100)"
    using FLOAT_LIMIT_large by (simp add: div_100_def)
  with sl show ?thesis
    by (simp add: enhanced_risk_analysis_on_def enhanced_risk_analysis_def Let_def)
qed

lemma RISK_WEIGHTS_terms:
  "map fst RISK_WEIGHTS =
     [lit ''fraud'', lit ''bribery'', lit ''sanctions'', lit ''bankruptcy'',
      lit ''money laundering'', lit ''litigation'', lit ''regulatory fines'',
      lit ''tax evasion'', lit ''data breach'', lit ''antitrust'']"
  by (simp add: RISK_WEIGHTS_def)

lemma RISK_WEIGHTS_distinct: "distinct (map fst RISK_WEIGHTS)"
  unfolding RISK_WEIGHTS_terms by (simp add: lit_def)

lemma REVIEW_neq_CONTINUE: "REVIEW \<noteq> CONTINUE"
  by (simp add: REVIEW_def CONTINUE_def lit_def)

text \<open>
  C1. For every text, the total weight of the scorer is the sum of the weights of exactly
  those lexicon terms that occur case-insensitively as substrings of the text, each lexicon
  entry counted once, and the risk score returned is \<open>min (total_weight / 100) 1\<close>.
  In particular a text in which \<open>bribery\<close> and \<open>antitrust\<close> occur, and no other term of the
  lexicon, has risk score \<open>0.30\<close>.
\<close>

theorem scorer_total_weight:
  "total_weight U RISK_WEIGHTS text =
     (\<Sum>(term, weight) \<leftarrow> RISK_WEIGHTS. if occurs_in U term text then weight else 0)
   \<and> risk_score (enhanced_risk_analysis U text) =
       min (of_int (total_weight U RISK_WEIGHTS text) / 100) 1
   \<and> (occurs_in U (lit ''bribery'') text \<and> occurs_in U (lit ''antitrust'') text
        \<and> (\<forall>t \<in> set (other_terms (lit ''bribery'') (lit ''antitrust'')). \<not> occurs_in U t text)
       \<longrightarrow> risk_score (enhanced_risk_analysis U text) = 3 / 10)"
proof (intro conjI impI)
  show total: "total_weight U RISK_WEIGHTS text =
     (\<Sum>(term, weight) \<leftarrow> RISK_WEIGHTS. if occurs_in U term text then weight else 0)"
    by (rule total_weight_eq)
  show risk: "risk_score (enhanced_risk_analysis U text) =
       min (of_int (total_weight U RISK_WEIGHTS text) / 100) 1"
    by (simp add: risk_score_eq)
  assume only: "occurs_in U (lit ''bribery'') text \<and> occurs_in U (lit ''antitrust'') text
        \<and> (\<forall>t \<in> set (other_terms (lit ''bribery'') (lit ''antitrust'')). \<not> occurs_in U t text)"
  have others: "other_terms (lit ''bribery'') (lit ''antitrust'') =
      [lit ''fraud'', lit ''sanctions'', lit ''bankruptcy'', lit ''money laundering'',
       lit ''litigation'', lit ''regulatory fines'', lit ''tax evasion'', lit ''data breach'']"
    unfolding other_terms_def RISK_WEIGHTS_terms by (simp add: lit_def)
  from only have "total_weight U RISK_WEIGHTS text = 30"
    unfolding total others by (simp add: RISK_WEIGHTS_def)
  then show "risk_score (enhanced_risk_analysis U text) = 3 / 10"
    by (simp add: risk)
qed

theorem scorer_total_weight_witness:
  "occurs_in ascii_ucd (lit ''bribery'') (lit ''Antitrust probe; BRIBERY, bribery again.'')
   \<and> occurs_in ascii_ucd (lit ''antitrust'') (lit ''Antitrust probe; BRIBERY, bribery again.'')
   \<and> list_all (\<lambda>t. \<not> occurs_in ascii_ucd t (lit ''Antitrust probe; BRIBERY, bribery again.''))
         (other_terms (lit ''bribery'') (lit ''antitrust''))
   \<and> risk_score (enhanced_risk_analysis ascii_ucd
         (lit ''Antitrust probe; BRIBERY, bribery again.'')) = 3 / 10"
proof -
  have h: "occurs_in ascii_ucd (lit ''bribery'') (lit ''Antitrust probe; BRIBERY, bribery again.'')
   \<and> occurs_in ascii_ucd (lit ''antitrust'') (lit ''Antitrust probe; BRIBERY, bribery again.'')
   \<and> (\<forall>t \<in> set (other_terms (lit ''bribery'') (lit ''antitrust'')).
         \<not> occurs_in ascii_ucd t (lit ''Antitrust probe; BRIBERY, bribery again.''))"
    by code_simp
  from scorer_total_weight [of ascii_ucd "lit ''Antitrust probe; BRIBERY, bribery again.''"]
  have "risk_score (enhanced_risk_analysis ascii_ucd
         (lit ''Antitrust probe; BRIBERY, bribery again.'')) = 3 / 10"
    using h by blast
  with h show ?thesis by (simp add: list_all_iff)
qed

text \<open>
  C2, as the claim states it, fails: with the lexicon whose single term \<open>a\<close> has the
  positive weight \<open>2^1024\<close> and the text \<open>a\<close>, the total is too large for a float, the
  division raises \<open>OverflowError\<close> and no risk score is returned.
\<close>

theorem risk_score_overflow_counterexample:
  "list_all (\<lambda>(term, weight). 0 < weight) [(lit ''a'', 2 ^ 1024 :: int)]
   \<and> enhanced_risk_analysis_on ascii_ucd [(lit ''a'', 2 ^ 1024)] (lit ''a'')
       = Inl OverflowError"
  by (simp add: enhanced_risk_analysis_on_def div_100_def FLOAT_LIMIT_def Let_def
        str_lower_def is_ascii_def ascii_lower_def lit_def)

text \<open>
  C2, amended. For every lexicon whose weights are positive integers and every text for
  which the total weight of the matched terms is below \<open>2^1024 - 2^970\<close>, the integers
  that convert to a float, the scorer returns and its risk score lies in the closed
  interval from 0 to 1. With the lexicon of the repository this is so for every text.
\<close>

theorem risk_score_in_unit_interval:
  "((\<forall>(term, weight) \<in> set items. 0 < weight) \<and> total_weight U items text < FLOAT_LIMIT
      \<longrightarrow> (\<exists>r. enhanced_risk_analysis_on U items text = Inr r
                \<and> 0 \<le> risk_score r \<and> risk_score r \<le> 1))
   \<and> enhanced_risk_analysis_on U RISK_WEIGHTS text = Inr (enhanced_risk_analysis U text)
   \<and> 0 \<le> risk_score (enhanced_risk_analysis U text)
   \<and> risk_score (enhanced_risk_analysis U text) \<le> 1"
proof (intro conjI impI)
  assume h: "(\<forall>(term, weight) \<in> set items. 0 < weight)
               \<and> total_weight U items text < FLOAT_LIMIT"
  obtain flagged score
    where sl: "score_loop items (str_lower U text) ([], 0) = (flagged, score)"
    by (cases "score_loop items (str_lower U text) ([], 0)")
  then have sc: "score = total_weight U items text"
    by (simp add: total_weight_def)
  from h have pos: "\<forall>(term, weight) \<in> set items. 0 < weight" by blast
  have nn: "0 \<le> score"
    unfolding sc using pos by (rule total_weight_nonneg)
  with h sc have "div_100 score = Inr (of_int score / 100)"
    by (simp add: div_100_def)
  with sl have "enhanced_risk_analysis_on U items text =
                  Inr (analysis_of U text flagged (min (of_int score / 100) 1))"
    by (simp add: enhanced_risk_analysis_on_def Let_def)
  moreover have "risk_score (analysis_of U text flagged (min (of_int score / 100) 1)) =
                   min (of_int score / 100) 1"
    by (simp add: analysis_of_def Let_def)
  ultimately show "\<exists>r. enhanced_risk_analysis_on U items text = Inr r
                     \<and> 0 \<le> risk_score r \<and> risk_score r \<le> 1"
    using nn by simp
next
  show "enhanced_risk_analysis_on U RISK_WEIGHTS text = Inr (enhanced_risk_analysis U text)"
    by (rule enhanced_risk_analysis_on_RISK_WEIGHTS)
next
  have "0 \<le> total_weight U RISK_WEIGHTS text"
    using RISK_WEIGHTS_positive by (rule total_weight_nonneg)
  then show "0 \<le> risk_score (enhanced_risk_analysis U text)"
    by (simp add: risk_score_eq)
next
  show "risk_score (enhanced_risk_analysis U text) \<le> 1"
    by (simp add: risk_score_eq)
qed

theorem risk_score_in_unit_interval_witness:
  "list_all (\<lambda>(term, weight). 0 < weight) [(lit ''fraud'', 70), (lit ''audit'', 60 :: int)]
   \<and> total_weight ascii_ucd [(lit ''fraud'', 70), (lit ''audit'', 60)]
         (lit ''The audit found fraud.'') = 130
   \<and> (130 :: int) < FLOAT_LIMIT
   \<and> (\<exists>r. enhanced_risk_analysis_on ascii_ucd [(lit ''fraud'', 70), (lit ''audit'', 60)]
              (lit ''The audit found fraud.'') = Inr r
          \<and> 0 \<le> risk_score r \<and> risk_score r \<le> 1)"
proof -
  have p: "\<forall>(term, weight) \<in> set [(lit ''fraud'', 70), (lit ''audit'', 60 :: int)]. 0 < weight"
    by simp
  have t: "total_weight ascii_ucd [(lit ''fraud'', 70), (lit ''audit'', 60)]
             (lit ''The audit found fraud.'') = 130"
    by code_simp
  have l: "(130 :: int) < FLOAT_LIMIT"
    by (simp add: FLOAT_LIMIT_def)
  from risk_score_in_unit_interval
    [of "[(lit ''fraud'', 70), (lit ''audit'', 60)]" ascii_ucd "lit ''The audit found fraud.''"]
    p t l
  have "\<exists>r. enhanced_risk_analysis_on ascii_ucd [(lit ''fraud'', 70), (lit ''audit'', 60)]
              (lit ''The audit found fraud.'') = Inr r
          \<and> 0 \<le> risk_score r \<and> risk_score r \<le> 1"
    by simp
  with p t l show ?thesis by (simp add: list_all_iff)
qed

text \<open>
  C3. For every text, the list of flagged terms returned by the scorer has no term twice,
  is a subsequence of the lexicon in its iteration order, and holds only terms that occur
  case-insensitively as substrings of the text.
\<close>

theorem flagged_terms_invariant:
  "distinct (flagged_terms (details (enhanced_risk_analysis U text)))
   \<and> subseq (flagged_terms (details (enhanced_risk_analysis U text))) (map fst RISK_WEIGHTS)
   \<and> (\<forall>term \<in> set (flagged_terms (details (enhanced_risk_analysis U text))).
         occurs_in U term text)"
  using RISK_WEIGHTS_distinct
  by (simp add: flagged_eq)

theorem flagged_terms_invariant_witness:
  "flagged_terms (details (enhanced_risk_analysis ascii_ucd
       (lit ''Antitrust first, then bribery.''))) = [lit ''bribery'', lit ''antitrust'']
   \<and> occurs_in ascii_ucd (lit ''bribery'') (lit ''Antitrust first, then bribery.'')
   \<and> occurs_in ascii_ucd (lit ''antitrust'') (lit ''Antitrust first, then bribery.'')"
proof -
  have f: "flagged_terms (details (enhanced_risk_analysis ascii_ucd
       (lit ''Antitrust first, then bribery.''))) = [lit ''bribery'', lit ''antitrust'']"
    by code_simp
  from flagged_terms_invariant [of ascii_ucd "lit ''Antitrust first, then bribery.''"]
  have "\<forall>term \<in> set [lit ''bribery'', lit ''antitrust''].
          occurs_in ascii_ucd term (lit ''Antitrust first, then bribery.'')"
    unfolding f by blast
  with f show ?thesis by simp
qed

text \<open>
  C8. The recommendation attached to a result is chosen by nothing but whether the list of
  flagged terms is empty: it is the message asking to review the highlighted sentences
  exactly when the list is non-empty, and the message to continue standard due diligence
  exactly when it is empty.
\<close>

theorem recommendation_by_flagged_terms:
  "(recommendations (details (enhanced_risk_analysis U text)) = REVIEW
      \<longleftrightarrow> flagged_terms (details (enhanced_risk_analysis U text)) \<noteq> [])
   \<and> (recommendations (details (enhanced_risk_analysis U text)) = CONTINUE
      \<longleftrightarrow> flagged_terms (details (enhanced_risk_analysis U text)) = [])"
  using REVIEW_neq_CONTINUE
  by (auto simp: recommendations_eq)

theorem recommendation_by_flagged_terms_witness:
  "flagged_terms (details (enhanced_risk_analysis ascii_ucd (lit ''Pending litigation.''))) \<noteq> []
   \<and> recommendations (details (enhanced_risk_analysis ascii_ucd (lit ''Pending litigation.'')))
       = REVIEW
   \<and> flagged_terms (details (enhanced_risk_analysis ascii_ucd (lit ''All systems nominal.''))) = []
   \<and> recommendations (details (enhanced_risk_analysis ascii_ucd (lit ''All systems nominal.'')))
       = CONTINUE"
proof -
  have a: "flagged_terms (details (enhanced_risk_analysis ascii_ucd (lit ''Pending litigation.'')))
             \<noteq> []"
    by code_simp
  have b: "flagged_terms (details (enhanced_risk_analysis ascii_ucd (lit ''All systems nominal.'')))
             = []"
    by code_simp
  from recommendation_by_flagged_terms [of ascii_ucd "lit ''Pending litigation.''"] a
  have c: "recommendations (details (enhanced_risk_analysis ascii_ucd (lit ''Pending litigation.'')))
             = REVIEW"
    by blast
  from recommendation_by_flagged_terms [of ascii_ucd "lit ''All systems nominal.''"] b
  have d: "recommendations (details (enhanced_risk_analysis ascii_ucd (lit ''All systems nominal.'')))
             = CONTINUE"
    by blast
  from a b c d show ?thesis by blast
qed

text \<open>
  C10. For every text, the risk score of the scorer is strictly positive if and only if the
  list of flagged terms is non-empty, and it is zero exactly when the recommendation to
  continue standard due diligence is attached.
\<close>

theorem risk_score_agrees_with_recommendation:
  "(0 < risk_score (enhanced_risk_analysis U text)
      \<longleftrightarrow> flagged_terms (details (enhanced_risk_analysis U text)) \<noteq> [])
   \<and> (risk_score (enhanced_risk_analysis U text) = 0
      \<longleftrightarrow> recommendations (details (enhanced_risk_analysis U text)) = CONTINUE)"
proof -
  let ?w = "total_weight U RISK_WEIGHTS text"
  let ?r = "enhanced_risk_analysis U text"
  have nn: "0 \<le> ?w" using RISK_WEIGHTS_positive by (rule total_weight_nonneg)
  have pos: "0 < ?w \<longleftrightarrow> flagged_terms (details ?r) \<noteq> []"
    using total_weight_pos_iff [OF RISK_WEIGHTS_positive]
    by (simp add: flagged_eq)
  have risk: "risk_score ?r = min (of_int ?w / 100) 1"
    by (simp add: risk_score_eq)
  have rec: "recommendations (details ?r) = CONTINUE \<longleftrightarrow> flagged_terms (details ?r) = []"
    using REVIEW_neq_CONTINUE by (auto simp: recommendations_eq)
  have one: "0 < risk_score ?r \<longleftrightarrow> 0 < ?w"
    by (simp add: risk)
  have two: "risk_score ?r = 0 \<longleftrightarrow> ?w = 0"
    using nn by (auto simp: risk min_def)
  from one two pos rec nn show ?thesis by auto
qed

theorem risk_score_agrees_with_recommendation_witness:
  "0 < risk_score (enhanced_risk_analysis ascii_ucd (lit ''Bankruptcy filing.''))
   \<and> flagged_terms (details (enhanced_risk_analysis ascii_ucd (lit ''Bankruptcy filing.''))) \<noteq> []
   \<and> risk_score (enhanced_risk_analysis ascii_ucd (lit ''Nothing to report.'')) = 0
   \<and> recommendations (details (enhanced_risk_analysis ascii_ucd (lit ''Nothing to report.'')))
       = CONTINUE"
proof -
  have a: "flagged_terms (details (enhanced_risk_analysis ascii_ucd (lit ''Bankruptcy filing.'')))
             \<noteq> []"
    by code_simp
  have b: "risk_score (enhanced_risk_analysis ascii_ucd (lit ''Nothing to report.'')) = 0"
    by code_simp
  from risk_score_agrees_with_recommendation [of ascii_ucd "lit ''Bankruptcy filing.''"] a
  have c: "0 < risk_score (enhanced_risk_analysis ascii_ucd (lit ''Bankruptcy filing.''))"
    by blast
  from risk_score_agrees_with_recommendation [of ascii_ucd "lit ''Nothing to report.''"] b
  have d: "recommendations (details (enhanced_risk_analysis ascii_ucd (lit ''Nothing to report.'')))
             = CONTINUE"
    by blast
  from a b c d show ?thesis by blast
qed

section \<open>Properties of the summary\<close>

lemma summary_unflagged:
  assumes "flagged_terms (details (enhanced_risk_analysis U text)) = []"
  shows "summary (enhanced_risk_analysis U text) =
           (case sentences_of U text of [] \<Rightarrow> [] | s # rest \<Rightarrow> s @ lit ''.'')"
proof -
  obtain flagged score
    where sl: "score_loop RISK_WEIGHTS (str_lower U text) ([], 0) = (flagged, score)"
    by (cases "score_loop RISK_WEIGHTS (str_lower U text) ([], 0)")
  with assms have "flagged = []"
    by (simp add: enhanced_risk_analysis_def analysis_of_def Let_def)
  with sl show ?thesis
    by (simp add: enhanced_risk_analysis_def analysis_of_def Let_def split: list.splits)
qed

text \<open>
  C4. On the text \<open>We detected fraud in the Q3 filings. Revenue grew 5%.\<close> the scorer flags
  exactly \<open>fraud\<close> and the risk score is \<open>0.2\<close>, as the claim says. The summary is not the
  sentence with its single period: the split keeps the period of the sentence and the
  summarizer appends another one, so the summary ends in two periods.
\<close>

theorem example1_summary_has_two_periods:
  "flagged_terms (details (enhanced_risk_analysis U
       (lit ''We detected fraud in the Q3 filings. Revenue grew 5%.''))) = [lit ''fraud'']
   \<and> risk_score (enhanced_risk_analysis U
       (lit ''We detected fraud in the Q3 filings. Revenue grew 5%.'')) = 1 / 5
   \<and> summary (enhanced_risk_analysis U
       (lit ''We detected fraud in the Q3 filings. Revenue grew 5%.''))
       = lit ''We detected fraud in the Q3 filings..''
   \<and> summary (enhanced_risk_analysis U
       (lit ''We detected fraud in the Q3 filings. Revenue grew 5%.''))
       \<noteq> lit ''We detected fraud in the Q3 filings.''"
  by code_simp

text \<open>
  C5, as the claim states it, fails: on the text \<open>All systems nominal\<close>, which has no lexicon
  term and is its own first sentence, the summary is not that sentence but the sentence
  followed by a period.
\<close>

theorem summary_is_first_sentence_counterexample:
  "list_all (\<lambda>term. \<not> occurs_in ascii_ucd term (lit ''All systems nominal''))
     (map fst RISK_WEIGHTS)
   \<and> sentences_of ascii_ucd (lit ''All systems nominal'') = [lit ''All systems nominal'']
   \<and> summary (enhanced_risk_analysis ascii_ucd (lit ''All systems nominal''))
       \<noteq> lit ''All systems nominal''"
  by code_simp

text \<open>
  C5, amended. For every text in which no lexicon term occurs (the empty text included), the
  scorer returns risk score 0 and no flagged terms; the summary is the empty string when
  the text has no sentence, and when the first sentence does not itself end in one of
  \<open>. ! ?\<close> the summary is that sentence followed by one period.
\<close>

theorem no_terms_result:
  assumes "\<forall>term \<in> set (map fst RISK_WEIGHTS). \<not> occurs_in U term text"
  shows "risk_score (enhanced_risk_analysis U text) = 0
         \<and> flagged_terms (details (enhanced_risk_analysis U text)) = []
         \<and> (sentences_of U text = [] \<longrightarrow> summary (enhanced_risk_analysis U text) = [])
         \<and> (\<forall>s rest. sentences_of U text = s # rest \<and> \<not> is_terminator (last s)
               \<longrightarrow> summary (enhanced_risk_analysis U text) = s @ lit ''.'')"
proof -
  have flagged: "flagged_terms (details (enhanced_risk_analysis U text)) = []"
    using assms by (simp add: flagged_eq filter_empty_conv)
  have "0 \<le> total_weight U RISK_WEIGHTS text"
    using RISK_WEIGHTS_positive by (rule total_weight_nonneg)
  moreover have "\<not> 0 < total_weight U RISK_WEIGHTS text"
    using total_weight_pos_iff [OF RISK_WEIGHTS_positive, of U "text"] flagged
    by (simp add: flagged_eq)
  ultimately have "total_weight U RISK_WEIGHTS text = 0" by simp
  then have risk: "risk_score (enhanced_risk_analysis U text) = 0"
    by (simp add: risk_score_eq)
  have summ: "summary (enhanced_risk_analysis U text) =
                (case sentences_of U text of [] \<Rightarrow> [] | s # rest \<Rightarrow> s @ lit ''.'')"
    using flagged by (rule summary_unflagged)
  from risk flagged summ show ?thesis by simp
qed

theorem no_terms_result_witness:
  "list_all (\<lambda>term. \<not> occurs_in ascii_ucd term (lit ''All systems nominal''))
     (map fst RISK_WEIGHTS)
   \<and> sentences_of ascii_ucd (lit ''All systems nominal'') = [lit ''All systems nominal'']
   \<and> \<not> is_terminator (last (lit ''All systems nominal''))
   \<and> risk_score (enhanced_risk_analysis ascii_ucd (lit ''All systems nominal'')) = 0
   \<and> flagged_terms (details (enhanced_risk_analysis ascii_ucd (lit ''All systems nominal''))) = []
   \<and> summary (enhanced_risk_analysis ascii_ucd (lit ''All systems nominal''))
       = lit ''All systems nominal'' @ lit ''.''"
proof -
  have h: "list_all (\<lambda>term. \<not> occurs_in ascii_ucd term (lit ''All systems nominal''))
             (map fst RISK_WEIGHTS)"
    by code_simp
  have s: "sentences_of ascii_ucd (lit ''All systems nominal'') = [lit ''All systems nominal'']"
    by code_simp
  have t: "\<not> is_terminator (last (lit ''All systems nominal''))"
    by code_simp
  from h have h': "\<forall>term \<in> set (map fst RISK_WEIGHTS).
                     \<not> occurs_in ascii_ucd term (lit ''All systems nominal'')"
    by (simp only: list_all_iff)
  from no_terms_result [OF h'] s t h show ?thesis by blast
qed

section \<open>Properties of text extraction\<close>

lemma utf8_step_consumes:
  assumes "utf8_step b bs = (r, n)"
  shows "n \<le> length bs \<and> (\<forall>x \<in> set (take n bs). 0x80 \<le> x)"
  using assms
  by (auto simp: utf8_step_def bad_second3_def bad_second4_def is_continuation_def
           split: if_splits list.splits)

lemma utf8_decode_ascii:
  "b < 0x80 \<Longrightarrow> utf8_decode_ignore (b # bs) = unat b # utf8_decode_ignore bs"
  by (simp add: utf8_step_def)

lemma utf8_decode_nonempty:
  "\<exists>b \<in> set bs. b < 0x80 \<Longrightarrow> utf8_decode_ignore bs \<noteq> []"
proof (induction bs rule: utf8_decode_ignore.induct)
  case 1
  then show ?case by simp
next
  case (2 b bs)
  show ?case
  proof (cases "b < 0x80")
    case True
    then show ?thesis by (simp add: utf8_step_def)
  next
    case False
    obtain r n where st: "utf8_step b bs = (r, n)" by (cases "utf8_step b bs")
    from utf8_step_consumes [OF st]
    have cons: "\<forall>x \<in> set (take n bs). 0x80 \<le> x" by simp
    from "2.prems" False obtain a where a: "a \<in> set bs" "a < 0x80" by auto
    have "set bs = set (take n bs) \<union> set (drop n bs)"
      by (metis append_take_drop_id set_append)
    with a cons have "a \<in> set (drop n bs)" by force
    with a have "\<exists>b \<in> set (drop n bs). b < 0x80" by blast
    then have "utf8_decode_ignore (drop n bs) \<noteq> []"
      by (rule "2.IH" [OF st [symmetric]])
    with st show ?thesis by simp
  qed
qed

lemma pages_loop_raises:
  "Inl e \<in> set pages \<Longrightarrow> \<exists>e'. pages_loop pages acc = Inl e'"
  by (induction pages acc rule: pages_loop.induct) (auto simp: Let_def)

lemma extract_text_from_pdf_returns: "\<exists>text. extract_text_from_pdf lib data = Inr text"
  by (simp add: extract_text_from_pdf_def split: option.splits sum.splits)

lemma extract_text_returns: "\<exists>text. extract_text lib data = Inr text"
  using extract_text_from_pdf_returns [of lib data]
  by (simp add: extract_text_def bytes_decode_def)

lemma analyzed_text_returns: "\<exists>text. analyzed_text lib data = Inr text"
  using extract_text_returns [of lib data]
  by (auto simp: analyzed_text_def bytes_decode_def)

text \<open>
  C6, as the claim states it, fails: the single byte \<open>0xFF\<close> is a non-empty document whose
  primary extraction yields the empty string, and its preview decodes to the empty string
  too, so the analysis receives an empty text.
\<close>

theorem fallback_nonempty_counterexample:
  "[0xFF :: 8 word] \<noteq> []
   \<and> extract_text None [0xFF] = Inr []
   \<and> analyzed_text None [0xFF] = Inr []"
  by (simp add: analyzed_text_def extract_text_def PDF_MAGIC_def bytes_decode_def utf8_step_def)

text \<open>
  C6, amended. For every byte sequence whose primary extraction path yields the empty
  string, the text handed to the scorer and the summarizer is the first 500 bytes decoded
  as UTF-8 with the undecodable bytes dropped. That text is non-empty whenever one of these
  500 bytes is an ASCII byte, in particular whenever the bytes begin with the PDF magic
  header.
\<close>

theorem fallback_preview:
  assumes "extract_text lib data = Inr []"
  shows "analyzed_text lib data = Inr (utf8_decode_ignore (take 500 data))
         \<and> ((\<exists>b \<in> set (take 500 data). b < 0x80)
              \<longrightarrow> utf8_decode_ignore (take 500 data) \<noteq> [])
         \<and> (take 4 data = PDF_MAGIC \<longrightarrow> utf8_decode_ignore (take 500 data) \<noteq> [])"
proof (intro conjI impI)
  show "analyzed_text lib data = Inr (utf8_decode_ignore (take 500 data))"
    using assms by (simp add: analyzed_text_def bytes_decode_def)
  show "utf8_decode_ignore (take 500 data) \<noteq> []" if "\<exists>b \<in> set (take 500 data). b < 0x80"
    using that by (rule utf8_decode_nonempty)
  show "utf8_decode_ignore (take 500 data) \<noteq> []" if magic: "take 4 data = PDF_MAGIC"
  proof -
    from magic obtain rest where "data = 0x25 # rest"
      by (cases data) (auto simp: PDF_MAGIC_def)
    then show ?thesis by (simp add: utf8_step_def)
  qed
qed

theorem fallback_preview_witness:
  "extract_text None [0x25, 0x50, 0x44, 0x46, 0xFF, 0xFE] = Inr []
   \<and> take 4 [0x25, 0x50, 0x44, 0x46, 0xFF, 0xFE] = PDF_MAGIC
   \<and> analyzed_text None [0x25, 0x50, 0x44, 0x46, 0xFF, 0xFE]
       = Inr (utf8_decode_ignore (take 500 [0x25, 0x50, 0x44, 0x46, 0xFF, 0xFE]))
   \<and> utf8_decode_ignore (take 500 [0x25, 0x50, 0x44, 0x46, 0xFF, 0xFE]) \<noteq> []"
proof -
  have h: "extract_text None [0x25, 0x50, 0x44, 0x46, 0xFF, 0xFE] = Inr []"
    by (simp add: extract_text_def extract_text_from_pdf_def PDF_MAGIC_def)
  have m: "take 4 [0x25, 0x50, 0x44, 0x46, 0xFF, 0xFE :: 8 word] = PDF_MAGIC"
    by (simp add: PDF_MAGIC_def)
  from fallback_preview [OF h] h m show ?thesis by blast
qed

text \<open>
  C7. For every byte sequence, with or without the PDF magic header, text extraction
  returns a string and raises nothing. Every failure path gives the empty string: the PDF
  library missing, the reader or the iteration over its pages raising; and a page whose
  text extraction raises contributes the empty string, as a page with no text does.
\<close>

theorem extraction_never_raises:
  "(\<exists>text. extract_text lib data = Inr text)
   \<and> (\<exists>text. extract_text_from_pdf lib data = Inr text)
   \<and> extract_text_from_pdf None data = Inr []
   \<and> (PdfReader data = Inl e \<longrightarrow> extract_text_from_pdf (Some PdfReader) data = Inr [])
   \<and> (PdfReader data = Inr pages \<and> Inl e \<in> set pages
        \<longrightarrow> extract_text_from_pdf (Some PdfReader) data = Inr [])
   \<and> pages_loop (Inr (Inl e) # rest) acc = pages_loop (Inr (Inr (Some [])) # rest) acc"
proof (intro conjI impI)
  show "\<exists>text. extract_text lib data = Inr text" by (rule extract_text_returns)
  show "\<exists>text. extract_text_from_pdf lib data = Inr text"
    by (rule extract_text_from_pdf_returns)
  show "extract_text_from_pdf None data = Inr []"
    by (simp add: extract_text_from_pdf_def)
  show "extract_text_from_pdf (Some PdfReader) data = Inr []" if "PdfReader data = Inl e"
    using that by (simp add: extract_text_from_pdf_def)
  show "extract_text_from_pdf (Some PdfReader) data = Inr []"
    if "PdfReader data = Inr pages \<and> Inl e \<in> set pages"
  proof -
    from that obtain e' where "pages_loop pages [] = Inl e'"
      using pages_loop_raises by blast
    with that show ?thesis by (simp add: extract_text_from_pdf_def)
  qed
  show "pages_loop (Inr (Inl e) # rest) acc = pages_loop (Inr (Inr (Some [])) # rest) acc"
    by simp
qed

theorem extraction_never_raises_witness:
  "(\<lambda>d. Inl (Exception ''EOF marker not found'')) [0x25, 0x50, 0x44, 0x46, 0x9C, 0x01 :: 8 word]
     = (Inl (Exception ''EOF marker not found'') :: exn + (exn + page) list)
   \<and> extract_text_from_pdf (Some (\<lambda>d. Inl (Exception ''EOF marker not found'')))
       [0x25, 0x50, 0x44, 0x46, 0x9C, 0x01] = Inr []"
proof -
  have h: "(\<lambda>d. Inl (Exception ''EOF marker not found'')) [0x25, 0x50, 0x44, 0x46, 0x9C, 0x01 :: 8 word]
     = (Inl (Exception ''EOF marker not found'') :: exn + (exn + page) list)"
    by simp
  from extraction_never_raises
    [of _ "[0x25, 0x50, 0x44, 0x46, 0x9C, 0x01]"
        "\<lambda>d. Inl (Exception ''EOF marker not found'')" "Exception ''EOF marker not found''"]
  have "extract_text_from_pdf (Some (\<lambda>d. Inl (Exception ''EOF marker not found'')))
       [0x25, 0x50, 0x44, 0x46, 0x9C, 0x01] = Inr []"
    using h by blast
  with h show ?thesis by blast
qed

end
